theory Spec2Isabelle
  imports Main "HOL-Library.Multiset"
begin

section \<open>The e-waste pickup application (src/app.py)\<close>

text \<open>
  The application is one Flask module: two tables (users, pickups), a login session and
  ten routes. The model below keeps the view functions of \<^verbatim>\<open>create_app\<close> under their own
  names. The database is a pair of row lists in insertion order, the session is the
  \<^verbatim>\<open>_user_id\<close> entry that flask-login keeps in the session cookie, and every view maps a
  request and the current state to a response and the next state.
\<close>

subsection \<open>Strings\<close>

text \<open>
  A Python \<^verbatim>\<open>str\<close> is a sequence of Unicode code points, so a string of the program is a
  list of code points. \<open>str\<close> writes a literal of the source, given in ASCII, as such a
  list.
\<close>

type_synonym pystr = "int list"

definition str :: "string \<Rightarrow> pystr" where
  "str s = map of_char s"

text \<open>
  \<^verbatim>\<open>str.strip()\<close> removes the leading and the trailing whitespace. The whitespace
  characters are the code points for which \<^verbatim>\<open>str.isspace\<close> holds: the ASCII controls 9
  to 13 and 28 to 31, the space, U+0085, U+00A0, U+1680, U+2000 to U+200A, U+2028, U+2029,
  U+202F, U+205F and U+3000.
\<close>

definition isspace :: "int \<Rightarrow> bool" where
  "isspace c =
     ((0x09 \<le> c \<and> c \<le> 0x0D) \<or> (0x1C \<le> c \<and> c \<le> 0x20) \<or> c = 0x85 \<or> c = 0xA0 \<or>
      c = 0x1680 \<or> (0x2000 \<le> c \<and> c \<le> 0x200A) \<or> c = 0x2028 \<or> c = 0x2029 \<or>
      c = 0x202F \<or> c = 0x205F \<or> c = 0x3000)"

definition strip :: "pystr \<Rightarrow> pystr" where
  "strip s = rev (dropWhile isspace (rev (dropWhile isspace s)))"

text \<open>
  What trimming means, said without the algorithm: \<open>t\<close> is \<open>s\<close> trimmed when \<open>s\<close> is
  \<open>t\<close> between two runs of whitespace and \<open>t\<close> neither starts nor ends with whitespace.
\<close>

definition is_trimmed :: "pystr \<Rightarrow> pystr \<Rightarrow> bool" where
  "is_trimmed s t \<longleftrightarrow>
     (\<exists>pre post. s = pre @ t @ post \<and> list_all isspace pre \<and> list_all isspace post) \<and>
     (t = [] \<or> (\<not> isspace (hd t) \<and> \<not> isspace (last t)))"

text \<open>
  \<^verbatim>\<open>str.lower()\<close> follows the case mappings of the Unicode database, which are not part
  of the program: the views take the function as the parameter \<open>lower\<close>, and nothing is
  assumed about it.
\<close>

subsection \<open>Rows, state, requests and responses\<close>

record user =
  u_id :: int
  u_email :: pystr
  u_password_hash :: pystr
  u_is_admin :: bool

record pickup =
  p_id :: int
  p_user_id :: int
  p_name :: pystr
  p_email :: pystr
  p_address :: pystr
  p_item :: pystr
  p_date :: pystr
  p_status :: pystr

text \<open>
  The state a request acts on: the two tables and the user id stored in the session
  (\<open>None\<close> when the session holds none).
\<close>

record world =
  users :: "user list"
  pickups :: "pickup list"
  session_user_id :: "int option"

datatype meth = GET | POST

text \<open>
  The URL rules. The status rule carries the integer that the int converter of the rule
  read from the path: any run of digits, so a natural number of any size.
\<close>

datatype url =
    Url_index
  | Url_centers
  | Url_schedule
  | Url_requests
  | Url_status nat
  | Url_register
  | Url_login
  | Url_logout
  | Url_my_pickups

type_synonym form = "pystr \<rightharpoonup> pystr"

record request =
  req_method :: meth
  req_form :: form

text \<open>
  A response is the template rendered, with the context values the template prints, a
  redirect, or an error status: 404 from \<^verbatim>\<open>get_or_404\<close>, 500 for an exception that leaves
  the view, 405 for a method the URL has no rule for. The title and the form name passed
  to the login and registration template are literals of the source and stay literals.
\<close>

datatype response =
    Home_page
  | Centers_page
  | Schedule_page
  | Confirm_page int pystr
  | Admin_page "pickup list"
  | Auth_page string string
  | My_pickups_page "pickup list"
  | Redirect url
  | Not_found
  | Internal_server_error
  | Method_not_allowed

type_synonym view = "request \<Rightarrow> world \<Rightarrow> response \<times> world"

text \<open>
  The two functions imported from werkzeug.security are parameters of the model: the
  hash is salted at random, so nothing is assumed about either function.
\<close>

record werkzeug =
  generate_password_hash :: "pystr \<Rightarrow> pystr"
  check_password_hash :: "pystr \<Rightarrow> pystr \<Rightarrow> bool"

subsection \<open>Form access, the session user, keys and ordering\<close>

text \<open>\<^verbatim>\<open>request.form.get(k) or ""\<close>: a missing field reads as the empty string.\<close>

definition form_get_or :: "form \<Rightarrow> pystr \<Rightarrow> pystr" where
  "form_get_or f k = (case f k of None \<Rightarrow> [] | Some v \<Rightarrow> v)"

text \<open>\<^verbatim>\<open>bool(request.form.get(k))\<close>: a missing field and an empty value are both false.\<close>

definition form_get_bool :: "form \<Rightarrow> pystr \<Rightarrow> bool" where
  "form_get_bool f k = (case f k of None \<Rightarrow> False | Some v \<Rightarrow> v \<noteq> [])"

text \<open>
  \<^verbatim>\<open>current_user\<close>: flask-login passes the session's user id to \<^verbatim>\<open>load_user\<close>, which
  reads the row by primary key. \<open>None\<close> stands for the anonymous user, which is what
  flask-login supplies when the session holds no id or no row has that id.
\<close>

definition load_user :: "world \<Rightarrow> int \<Rightarrow> user option" where
  "load_user w i = find (\<lambda>u. u_id u = i) (users w)"

text \<open>\<^verbatim>\<open>User.query.filter_by(email=email).first()\<close>.\<close>

definition filter_by_email_first :: "world \<Rightarrow> pystr \<Rightarrow> user option" where
  "filter_by_email_first w e = find (\<lambda>u. u_email u = e) (users w)"

text \<open>
  \<^verbatim>\<open>Pickup.query.get_or_404(pickup_id)\<close> on the default SQLite database. The key is bound
  as a parameter of the query, and an integer that does not fit the signed 64-bit INTEGER
  of SQLite, one of 2^63 or more, makes the driver raise an overflow error, which leaves
  the view as a 500 response. Otherwise the row with that key is returned, and when there
  is none the 404 response is raised. The left summand is the response of the failure.
\<close>

definition get_or_404 :: "world \<Rightarrow> int \<Rightarrow> response + pickup" where
  "get_or_404 w i =
     (if 2 ^ 63 \<le> i then Inl Internal_server_error
      else case find (\<lambda>p. p_id p = i) (pickups w) of
             None \<Rightarrow> Inl Not_found
           | Some p \<Rightarrow> Inr p)"

definition current_user :: "world \<Rightarrow> user option" where
  "current_user w = (case session_user_id w of None \<Rightarrow> None | Some i \<Rightarrow> load_user w i)"

text \<open>
  The integer primary key given to an inserted row: one more than the largest key in the
  table, and 1 in an empty table.
\<close>

definition next_id :: "int list \<Rightarrow> int" where
  "next_id ids = fold max ids 0 + 1"

text \<open>\<^verbatim>\<open>order_by(Pickup.id.desc())\<close>.\<close>

definition order_by_id_desc :: "pickup list \<Rightarrow> pickup list" where
  "order_by_id_desc ps = sort_key (\<lambda>p. - p_id p) ps"

subsection \<open>The views\<close>

text \<open>
  \<^verbatim>\<open>login_required\<close> wraps a view: an anonymous request is answered by the login manager,
  which redirects to the login view, and the wrapped view does not run.
\<close>

definition login_required :: "view \<Rightarrow> view" where
  "login_required f req w =
     (if current_user w = None then (Redirect Url_login, w) else f req w)"

definition index :: view where
  "index req w = (Home_page, w)"

definition centers :: view where
  "centers req w = (Centers_page, w)"

definition schedule :: view where
  "schedule req w = (Schedule_page, w)"

text \<open>
  \<^verbatim>\<open>schedule_post\<close> reads \<^verbatim>\<open>current_user.id\<close> while it builds the row. The anonymous user
  has no such attribute, so the attribute error leaves the view before anything is added
  to the database session.
\<close>

definition schedule_post :: view where
  "schedule_post req w =
     (let name = strip (form_get_or (req_form req) (str ''name''));
          email = strip (form_get_or (req_form req) (str ''email''));
          address = strip (form_get_or (req_form req) (str ''address''));
          item = strip (form_get_or (req_form req) (str ''item''));
          date = strip (form_get_or (req_form req) (str ''date''))
      in case current_user w of
           None \<Rightarrow> (Internal_server_error, w)
         | Some cu \<Rightarrow>
             let p = \<lparr>p_id = next_id (map p_id (pickups w)), p_user_id = u_id cu,
                      p_name = name, p_email = email, p_address = address,
                      p_item = item, p_date = date, p_status = str ''Scheduled''\<rparr>
             in (Confirm_page (p_id p) name, w\<lparr>pickups := pickups w @ [p]\<rparr>))"

definition admin_requests :: view where
  "admin_requests req w =
     (case current_user w of
        None \<Rightarrow> (Internal_server_error, w)
      | Some cu \<Rightarrow>
          if \<not> u_is_admin cu then (Redirect Url_index, w)
          else (Admin_page (order_by_id_desc (pickups w)), w))"

text \<open>
  The commit of \<^verbatim>\<open>update_status\<close> writes the new status to the row whose primary key is
  \<^verbatim>\<open>pickup_id\<close>.
\<close>

definition set_status :: "int \<Rightarrow> pystr \<Rightarrow> pickup list \<Rightarrow> pickup list" where
  "set_status i s ps = map (\<lambda>p. if p_id p = i then p\<lparr>p_status := s\<rparr> else p) ps"

definition update_status :: "int \<Rightarrow> view" where
  "update_status pickup_id req w =
     (case current_user w of
        None \<Rightarrow> (Internal_server_error, w)
      | Some cu \<Rightarrow>
          if \<not> u_is_admin cu then (Redirect Url_index, w)
          else case get_or_404 w pickup_id of
                 Inl failure \<Rightarrow> (failure, w)
               | Inr p \<Rightarrow>
                   let new_status = strip (form_get_or (req_form req) (str ''status''))
                   in if new_status \<noteq> []
                      then (Redirect Url_requests,
                            w\<lparr>pickups := set_status pickup_id new_status (pickups w)\<rparr>)
                      else (Redirect Url_requests, w))"

definition register :: "(pystr \<Rightarrow> pystr) \<Rightarrow> werkzeug \<Rightarrow> view" where
  "register lower W req w =
     (if req_method req = POST then
        let email = lower (strip (form_get_or (req_form req) (str ''email'')));
            password = form_get_or (req_form req) (str ''password'');
            is_admin = form_get_bool (req_form req) (str ''is_admin'')
        in if email = [] \<or> password = [] then (Auth_page ''Register'' ''register'', w)
           else if filter_by_email_first w email \<noteq> None
             then (Auth_page ''Register'' ''register'', w)
           else
             let u = \<lparr>u_id = next_id (map u_id (users w)), u_email = email,
                      u_password_hash = generate_password_hash W password,
                      u_is_admin = is_admin\<rparr>
             in (Redirect Url_index,
                 w\<lparr>users := users w @ [u], session_user_id := Some (u_id u)\<rparr>)
      else (Auth_page ''Register'' ''register'', w))"

definition login :: "(pystr \<Rightarrow> pystr) \<Rightarrow> werkzeug \<Rightarrow> view" where
  "login lower W req w =
     (if req_method req = POST then
        let email = lower (strip (form_get_or (req_form req) (str ''email'')));
            password = form_get_or (req_form req) (str ''password'')
        in case filter_by_email_first w email of
             None \<Rightarrow> (Auth_page ''Login'' ''login'', w)
           | Some u \<Rightarrow>
               if check_password_hash W (u_password_hash u) password
               then (Redirect Url_index, w\<lparr>session_user_id := Some (u_id u)\<rparr>)
               else (Auth_page ''Login'' ''login'', w)
      else (Auth_page ''Login'' ''login'', w))"

definition logout :: view where
  "logout req w = (Redirect Url_index, w\<lparr>session_user_id := None\<rparr>)"

definition my_pickups :: view where
  "my_pickups req w =
     (case current_user w of
        None \<Rightarrow> (Internal_server_error, w)
      | Some cu \<Rightarrow>
          (My_pickups_page
             (order_by_id_desc (filter (\<lambda>p. p_user_id p = u_id cu) (pickups w))), w))"

subsection \<open>Routing\<close>

text \<open>
  The view registered for each rule. Decorators apply from the bottom up, so a route
  decorator written below \<^verbatim>\<open>login_required\<close> registers the undecorated function: that is
  the case for \<^verbatim>\<open>schedule_post\<close>, \<^verbatim>\<open>admin_requests\<close> and \<^verbatim>\<open>update_status\<close>. For
  \<^verbatim>\<open>logout\<close> and \<^verbatim>\<open>my_pickups\<close> the route decorator is on top and registers the wrapped
  view.
\<close>

fun url_map :: "(pystr \<Rightarrow> pystr) \<Rightarrow> werkzeug \<Rightarrow> meth \<Rightarrow> url \<Rightarrow> view option" where
  "url_map lower W GET Url_index = Some index"
| "url_map lower W GET Url_centers = Some centers"
| "url_map lower W GET Url_schedule = Some schedule"
| "url_map lower W POST Url_schedule = Some schedule_post"
| "url_map lower W GET Url_requests = Some admin_requests"
| "url_map lower W POST (Url_status pickup_id) = Some (update_status (int pickup_id))"
| "url_map lower W m Url_register = Some (register lower W)"
| "url_map lower W m Url_login = Some (login lower W)"
| "url_map lower W GET Url_logout = Some (login_required logout)"
| "url_map lower W GET Url_my_pickups = Some (login_required my_pickups)"
| "url_map lower W m u = None"

definition handle ::
  "(pystr \<Rightarrow> pystr) \<Rightarrow> werkzeug \<Rightarrow> meth \<Rightarrow> url \<Rightarrow> form \<Rightarrow> world \<Rightarrow> response \<times> world" where
  "handle lower W m u f w =
     (case url_map lower W m u of
        None \<Rightarrow> (Method_not_allowed, w)
      | Some v \<Rightarrow> v \<lparr>req_method = m, req_form = f\<rparr> w)"

text \<open>
  The server handles requests one after the other, each on the state the previous one
  left. A request is given by its hashing functions, method, URL and form.
\<close>

type_synonym call = "werkzeug \<times> meth \<times> url \<times> form"

fun handle_all :: "(pystr \<Rightarrow> pystr) \<Rightarrow> call list \<Rightarrow> world \<Rightarrow> world" where
  "handle_all lower [] w = w"
| "handle_all lower ((W, m, u, f) # cs) w = handle_all lower cs (snd (handle lower W m u f w))"

subsection \<open>Example data\<close>

text \<open>
  A small database and instances of the parameters, used to run the views on concrete
  requests: one ordinary user, one administrator, and a pickup of each. \<open>ascii_lower\<close>
  lowercases the letters A to Z, which is what \<^verbatim>\<open>str.lower()\<close> does to a string of
  ASCII characters; \<open>form_of\<close> is the form with the given fields.
\<close>

definition ascii_lower :: "pystr \<Rightarrow> pystr" where
  "ascii_lower s = map (\<lambda>c. if 0x41 \<le> c \<and> c \<le> 0x5A then c + 0x20 else c) s"

definition plain_hash :: werkzeug where
  "plain_hash = \<lparr>generate_password_hash = (\<lambda>p. str ''h$'' @ p),
                  check_password_hash = (\<lambda>h p. h = str ''h$'' @ p)\<rparr>"

definition form_of :: "(string \<times> string) list \<Rightarrow> form" where
  "form_of kvs = map_of (map (\<lambda>(k, v). (str k, str v)) kvs)"

definition alice :: user where
  "alice = \<lparr>u_id = 1, u_email = str ''a@x.com'', u_password_hash = str ''h$pw1'',
             u_is_admin = False\<rparr>"

definition root :: user where
  "root = \<lparr>u_id = 2, u_email = str ''root@x.com'', u_password_hash = str ''h$pw2'',
            u_is_admin = True\<rparr>"

definition laptop :: pickup where
  "laptop = \<lparr>p_id = 1, p_user_id = 1, p_name = str ''A'', p_email = str ''a@x.com'',
              p_address = str ''1 St'', p_item = str ''Laptop'', p_date = str ''2024-01-01'',
              p_status = str ''Scheduled''\<rparr>"

definition phone :: pickup where
  "phone = \<lparr>p_id = 2, p_user_id = 2, p_name = str ''R'', p_email = str ''root@x.com'',
             p_address = str ''2 St'', p_item = str ''Phone'', p_date = str ''2024-02-02'',
             p_status = str ''Assigned''\<rparr>"

definition db_empty :: world where
  "db_empty = \<lparr>users = [], pickups = [], session_user_id = None\<rparr>"

definition as_anonymous :: world where
  "as_anonymous = \<lparr>users = [alice, root], pickups = [laptop, phone], session_user_id = None\<rparr>"

definition as_alice :: world where
  "as_alice = \<lparr>users = [alice, root], pickups = [laptop, phone], session_user_id = Some 1\<rparr>"

definition as_root :: world where
  "as_root = \<lparr>users = [alice, root], pickups = [laptop, phone], session_user_id = Some 2\<rparr>"

section \<open>Auxiliary facts\<close>

subsection \<open>Trimming\<close>

lemma dropWhile_hd_keep: "xs \<noteq> [] \<Longrightarrow> \<not> P (hd xs) \<Longrightarrow> dropWhile P xs = xs"
  by (cases xs) simp_all

lemma strip_is_trimmed: "is_trimmed s (strip s)"
proof -
  let ?d = "dropWhile isspace s"
  let ?t = "rev (dropWhile isspace (rev ?d))"
  let ?pre = "takeWhile isspace s"
  let ?post = "rev (takeWhile isspace (rev ?d))"
  have "rev (takeWhile isspace (rev ?d) @ dropWhile isspace (rev ?d)) = rev (rev ?d)"
    by (simp only: takeWhile_dropWhile_id)
  then have d: "?d = ?t @ ?post"
    by (simp only: rev_append rev_rev_ident)
  have "s = ?pre @ ?d" by simp
  with d have split: "s = ?pre @ ?t @ ?post" by simp
  have pre: "list_all isspace ?pre"
    by (auto simp: list_all_iff dest: set_takeWhileD)
  have post: "list_all isspace ?post"
    by (auto simp: list_all_iff dest: set_takeWhileD)
  have ends: "\<not> isspace (hd ?t) \<and> \<not> isspace (last ?t)" if ne: "?t \<noteq> []"
  proof
    from d ne have "?d \<noteq> []" by (metis append_is_Nil_conv)
    then have "\<not> isspace (hd ?d)" by (rule hd_dropWhile)
    moreover from d ne have "hd ?d = hd ?t" by (metis hd_append2)
    ultimately show "\<not> isspace (hd ?t)" by simp
    from ne have "dropWhile isspace (rev ?d) \<noteq> []" by simp
    then have "\<not> isspace (hd (dropWhile isspace (rev ?d)))" by (rule hd_dropWhile)
    then show "\<not> isspace (last ?t)" using ne by (simp add: last_rev)
  qed
  from split pre post ends show ?thesis
    unfolding is_trimmed_def strip_def by blast
qed

lemma is_trimmed_strip:
  assumes "is_trimmed s t"
  shows "strip s = t"
proof -
  from assms obtain pre post where s: "s = pre @ t @ post"
    and pre: "\<forall>c \<in> set pre. isspace c" and post: "\<forall>c \<in> set post. isspace c"
    and ends: "t = [] \<or> (\<not> isspace (hd t) \<and> \<not> isspace (last t))"
    unfolding is_trimmed_def list_all_iff by blast
  show ?thesis
  proof (cases "t = []")
    case True
    with s pre post have "\<forall>c \<in> set s. isspace c" by auto
    then have nil: "dropWhile isspace s = []" by simp
    have "strip s = []" unfolding strip_def nil by simp
    with True show ?thesis by simp
  next
    case False
    with ends have h: "\<not> isspace (hd t)" and l: "\<not> isspace (last t)" by simp_all
    have "dropWhile isspace s = dropWhile isspace (t @ post)"
      unfolding s using pre by (intro dropWhile_append2) simp
    also have "\<dots> = t @ post"
      using False h by (intro dropWhile_hd_keep) simp_all
    finally have d: "dropWhile isspace s = t @ post" .
    have "dropWhile isspace (rev post @ rev t) = dropWhile isspace (rev t)"
      using post by (intro dropWhile_append2) simp
    also have "\<dots> = rev t"
      using False l by (intro dropWhile_hd_keep) (simp_all add: hd_rev)
    finally have "dropWhile isspace (rev (t @ post)) = rev t" by simp
    then show ?thesis unfolding strip_def d by simp
  qed
qed

lemma is_trimmed_iff: "is_trimmed s t \<longleftrightarrow> t = strip s"
  using strip_is_trimmed is_trimmed_strip by blast

text \<open>Whitespace beyond ASCII is trimmed as well, here U+00A0, U+2003, U+0085 and U+3000.\<close>

lemma strip_non_ascii_whitespace:
  "strip ([0xA0, 0x2003] @ str ''Recycled'' @ [0x85, 0x3000]) = str ''Recycled''"
  by code_simp

lemma is_trimmed_form_get_or:
  "is_trimmed (case f k of None \<Rightarrow> [] | Some v \<Rightarrow> v) (strip (form_get_or f k))"
  unfolding form_get_or_def by (rule strip_is_trimmed)

subsection \<open>Keys, ordering and lookups\<close>

lemma fold_max_ge: "(a::int) \<le> fold max ids a"
proof (induction ids arbitrary: a)
  case Nil show ?case by simp
next
  case (Cons y ys)
  have "a \<le> max y a" by simp
  also have "\<dots> \<le> fold max ys (max y a)" by (rule Cons.IH)
  finally show ?case by simp
qed

lemma fold_max_mem: "x \<in> set ids \<Longrightarrow> (x::int) \<le> fold max ids a"
proof (induction ids arbitrary: a)
  case Nil then show ?case by simp
next
  case (Cons y ys)
  show ?case
  proof (cases "x = y")
    case True
    have "y \<le> max y a" by simp
    also have "\<dots> \<le> fold max ys (max y a)" by (rule fold_max_ge)
    finally show ?thesis using True by simp
  next
    case False
    with Cons show ?thesis by simp
  qed
qed

lemma next_id_fresh: "next_id ids \<notin> set ids"
  using fold_max_mem [of "next_id ids" ids 0] by (auto simp: next_id_def)

lemma mset_order_by_id_desc: "mset (order_by_id_desc ps) = mset ps"
  by (simp add: order_by_id_desc_def)

lemma sorted_order_by_id_desc:
  "sorted_wrt (\<lambda>a b. p_id b \<le> p_id a) (order_by_id_desc ps)"
proof -
  have "sorted (map (\<lambda>p. - p_id p) (order_by_id_desc ps))"
    unfolding order_by_id_desc_def by (rule sorted_sort_key)
  then show ?thesis by (simp add: sorted_map)
qed

lemma find_set_status:
  "find (\<lambda>p. p_id p = i) (set_status i s ps) =
     map_option (\<lambda>p. p\<lparr>p_status := s\<rparr>) (find (\<lambda>p. p_id p = i) ps)"
  by (induction ps) (simp_all add: set_status_def)

lemma find_app:
  "find P (xs @ ys) = (case find P xs of None \<Rightarrow> find P ys | Some x \<Rightarrow> Some x)"
  by (induction xs) simp_all

lemma get_or_404_missing:
  assumes "i \<notin> p_id ` set (pickups w)"
  shows "get_or_404 w i = Inl (if i < 2 ^ 63 then Not_found else Internal_server_error)"
proof -
  have "find (\<lambda>p. p_id p = i) (pickups w) = None"
    using assms by (auto simp: find_None_iff image_iff)
  then show ?thesis by (simp add: get_or_404_def)
qed

subsection \<open>Routing\<close>

lemma handle_schedule_post:
  "handle lower W POST Url_schedule f w = schedule_post \<lparr>req_method = POST, req_form = f\<rparr> w"
  by (simp add: handle_def)

lemma handle_admin_requests:
  "handle lower W GET Url_requests f w = admin_requests \<lparr>req_method = GET, req_form = f\<rparr> w"
  by (simp add: handle_def)

lemma handle_update_status:
  "handle lower W POST (Url_status i) f w =
     update_status (int i) \<lparr>req_method = POST, req_form = f\<rparr> w"
  by (simp add: handle_def)

lemma handle_register:
  "handle lower W m Url_register f w = register lower W \<lparr>req_method = m, req_form = f\<rparr> w"
  by (cases m) (simp_all add: handle_def)

lemma handle_login:
  "handle lower W m Url_login f w = login lower W \<lparr>req_method = m, req_form = f\<rparr> w"
  by (cases m) (simp_all add: handle_def)

lemma handle_my_pickups:
  "handle lower W GET Url_my_pickups f w =
     login_required my_pickups \<lparr>req_method = GET, req_form = f\<rparr> w"
  by (simp add: handle_def)

subsection \<open>Registration\<close>

lemma register_outcome:
  "register lower W \<lparr>req_method = POST, req_form = f\<rparr> w =
     (if lower (strip (form_get_or f (str ''email''))) = []
         \<or> form_get_or f (str ''password'') = []
         \<or> filter_by_email_first w (lower (strip (form_get_or f (str ''email'')))) \<noteq> None
      then (Auth_page ''Register'' ''register'', w)
      else (Redirect Url_index,
            w\<lparr>users := users w @
                  [\<lparr>u_id = next_id (map u_id (users w)),
                    u_email = lower (strip (form_get_or f (str ''email''))),
                    u_password_hash =
                      generate_password_hash W (form_get_or f (str ''password'')),
                    u_is_admin = form_get_bool f (str ''is_admin'')\<rparr>],
               session_user_id := Some (next_id (map u_id (users w)))\<rparr>))"
  by (simp add: register_def Let_def)

lemma register_success:
  assumes "fst (register lower W \<lparr>req_method = POST, req_form = f\<rparr> w) = Redirect Url_index"
  shows "\<exists>u. snd (register lower W \<lparr>req_method = POST, req_form = f\<rparr> w) =
               w\<lparr>users := users w @ [u], session_user_id := Some (u_id u)\<rparr>
           \<and> u_email u = lower (strip (form_get_or f (str ''email'')))
           \<and> u_is_admin u = form_get_bool f (str ''is_admin'')"
proof -
  let ?u = "\<lparr>u_id = next_id (map u_id (users w)),
             u_email = lower (strip (form_get_or f (str ''email''))),
             u_password_hash = generate_password_hash W (form_get_or f (str ''password'')),
             u_is_admin = form_get_bool f (str ''is_admin'')\<rparr>"
  have "snd (register lower W \<lparr>req_method = POST, req_form = f\<rparr> w) =
          w\<lparr>users := users w @ [?u], session_user_id := Some (u_id ?u)\<rparr>"
    using assms by (simp add: register_outcome split: if_splits)
  then show ?thesis by (intro exI [of _ ?u]) simp
qed

lemma register_failure:
  assumes "fst (register lower W \<lparr>req_method = POST, req_form = f\<rparr> w) \<noteq> Redirect Url_index"
  shows "register lower W \<lparr>req_method = POST, req_form = f\<rparr> w =
           (Auth_page ''Register'' ''register'', w)"
  using assms by (simp add: register_outcome split: if_splits)

lemma registered_email_found:
  "filter_by_email_first (w\<lparr>users := users w @ [u], session_user_id := s\<rparr>) (u_email u) \<noteq> None"
  by (simp add: filter_by_email_first_def find_app split: option.splits)

text \<open>No request removes a user row: every request leaves the users table or extends it.\<close>

lemma handle_users_grow: "\<exists>us. users (snd (handle lower W m u f w)) = users w @ us"
proof (cases "m = POST \<and> u = Url_register")
  case True
  show ?thesis
  proof (cases "fst (register lower W \<lparr>req_method = POST, req_form = f\<rparr> w) = Redirect Url_index")
    case True
    from register_success [OF this] obtain x where
      "snd (register lower W \<lparr>req_method = POST, req_form = f\<rparr> w) =
         w\<lparr>users := users w @ [x], session_user_id := Some (u_id x)\<rparr>"
      by blast
    with \<open>m = POST \<and> u = Url_register\<close> have "users (snd (handle lower W m u f w)) = users w @ [x]"
      by (simp add: handle_register)
    then show ?thesis by blast
  next
    case False
    from register_failure [OF this] \<open>m = POST \<and> u = Url_register\<close>
    have "users (snd (handle lower W m u f w)) = users w @ []"
      by (simp add: handle_register)
    then show ?thesis by blast
  qed
next
  case False
  then have "users (snd (handle lower W m u f w)) = users w @ []"
    by (cases m; cases u)
       (simp_all add: handle_def index_def centers_def schedule_def schedule_post_def
          admin_requests_def update_status_def register_def login_def logout_def
          my_pickups_def login_required_def Let_def split: option.splits sum.splits)
  then show ?thesis by blast
qed

lemma handle_email_stays:
  assumes "filter_by_email_first w e \<noteq> None"
  shows "filter_by_email_first (snd (handle lower W m u f w)) e \<noteq> None"
proof -
  from handle_users_grow obtain us where
    "users (snd (handle lower W m u f w)) = users w @ us" by blast
  with assms show ?thesis
    by (auto simp: filter_by_email_first_def find_app)
qed

lemma handle_all_email_stays:
  "filter_by_email_first w e \<noteq> None \<Longrightarrow>
   filter_by_email_first (handle_all lower cs w) e \<noteq> None"
proof (induction cs arbitrary: w)
  case Nil
  then show ?case by simp
next
  case (Cons c cs)
  obtain W m u f where c: "c = (W, m, u, f)" by (cases c)
  from Cons.prems have "filter_by_email_first (snd (handle lower W m u f w)) e \<noteq> None"
    by (rule handle_email_stays)
  then show ?case unfolding c by (simp add: Cons.IH)
qed

section \<open>Properties of the routes\<close>

subsection \<open>Scheduling a pickup\<close>

text \<open>
  Claim C1. A POST to /schedule made without an authenticated session creates no Pickup
  row. The rule is registered with the undecorated view, so the login manager never
  answers the request; the view itself fails when it reads the identifier of the
  anonymous user, the response is an internal server error and the state is the one
  before the request.
\<close>

theorem schedule_post_anonymous_creates_no_pickup:
  assumes "current_user w = None"
  shows "pickups (snd (handle lower W POST Url_schedule f w)) = pickups w \<and>
         handle lower W POST Url_schedule f w = (Internal_server_error, w)"
  using assms by (simp add: handle_schedule_post schedule_post_def)

theorem schedule_post_anonymous_creates_no_pickup_witness:
  "current_user as_anonymous = None \<and>
   pickups (snd (handle ascii_lower plain_hash POST Url_schedule (form_of [(''name'', ''A'')])
                   as_anonymous))
     = pickups as_anonymous \<and>
   handle ascii_lower plain_hash POST Url_schedule (form_of [(''name'', ''A'')]) as_anonymous
     = (Internal_server_error, as_anonymous)"
proof -
  have anon: "current_user as_anonymous = None" by code_simp
  from anon schedule_post_anonymous_creates_no_pickup [OF anon]
  show ?thesis by (rule conjI)
qed

text \<open>
  Claim C5. A POST to /schedule by an authenticated user appends exactly one Pickup row
  and changes nothing else. The row has a fresh identifier and is owned by the session's
  user. Each of name, email, address, item and date is the submitted form field trimmed:
  the submitted value between two runs of whitespace, neither starting nor ending with
  whitespace, and the empty string when the field is missing. The status is Scheduled,
  and the confirmation page is rendered with the identifier of the new row.
\<close>

theorem schedule_post_creates_one_pickup:
  assumes "current_user w = Some cu"
  shows "\<exists>p. handle lower W POST Url_schedule f w =
               (Confirm_page (p_id p) (p_name p), w\<lparr>pickups := pickups w @ [p]\<rparr>)
           \<and> p_id p \<notin> set (map p_id (pickups w))
           \<and> p_user_id p = u_id cu
           \<and> is_trimmed (case f (str ''name'') of None \<Rightarrow> [] | Some v \<Rightarrow> v) (p_name p)
           \<and> is_trimmed (case f (str ''email'') of None \<Rightarrow> [] | Some v \<Rightarrow> v) (p_email p)
           \<and> is_trimmed (case f (str ''address'') of None \<Rightarrow> [] | Some v \<Rightarrow> v) (p_address p)
           \<and> is_trimmed (case f (str ''item'') of None \<Rightarrow> [] | Some v \<Rightarrow> v) (p_item p)
           \<and> is_trimmed (case f (str ''date'') of None \<Rightarrow> [] | Some v \<Rightarrow> v) (p_date p)
           \<and> p_status p = str ''Scheduled''"
proof -
  let ?p = "\<lparr>p_id = next_id (map p_id (pickups w)), p_user_id = u_id cu,
             p_name = strip (form_get_or f (str ''name'')),
             p_email = strip (form_get_or f (str ''email'')),
             p_address = strip (form_get_or f (str ''address'')),
             p_item = strip (form_get_or f (str ''item'')),
             p_date = strip (form_get_or f (str ''date'')),
             p_status = str ''Scheduled''\<rparr>"
  have "handle lower W POST Url_schedule f w =
          (Confirm_page (p_id ?p) (p_name ?p), w\<lparr>pickups := pickups w @ [?p]\<rparr>)"
    using assms by (simp add: handle_schedule_post schedule_post_def Let_def)
  moreover have "p_id ?p \<notin> set (map p_id (pickups w))"
    using next_id_fresh [of "map p_id (pickups w)"] by simp
  ultimately show ?thesis
    by (intro exI [of _ ?p]) (simp add: is_trimmed_form_get_or)
qed

theorem schedule_post_creates_one_pickup_witness:
  "current_user as_alice = Some alice \<and>
   handle ascii_lower plain_hash POST Url_schedule
     (form_of [(''name'', '' A ''), (''email'', ''a@x.com''), (''item'', ''  Laptop'')]) as_alice =
     (Confirm_page 3 (str ''A''),
      as_alice\<lparr>pickups := pickups as_alice @
        [\<lparr>p_id = 3, p_user_id = 1, p_name = str ''A'', p_email = str ''a@x.com'',
          p_address = [], p_item = str ''Laptop'', p_date = [],
          p_status = str ''Scheduled''\<rparr>]\<rparr>) \<and>
   (\<exists>p. handle ascii_lower plain_hash POST Url_schedule
           (form_of [(''name'', '' A ''), (''email'', ''a@x.com''), (''item'', ''  Laptop'')])
           as_alice =
           (Confirm_page (p_id p) (p_name p), as_alice\<lparr>pickups := pickups as_alice @ [p]\<rparr>)
        \<and> p_id p \<notin> set (map p_id (pickups as_alice))
        \<and> p_user_id p = u_id alice
        \<and> is_trimmed (str '' A '') (p_name p)
        \<and> is_trimmed (str ''a@x.com'') (p_email p)
        \<and> is_trimmed [] (p_address p)
        \<and> is_trimmed (str ''  Laptop'') (p_item p)
        \<and> is_trimmed [] (p_date p)
        \<and> p_status p = str ''Scheduled'')"
proof -
  let ?f = "form_of [(''name'', '' A ''), (''email'', ''a@x.com''), (''item'', ''  Laptop'')]"
  have auth: "current_user as_alice = Some alice" by code_simp
  have run: "handle ascii_lower plain_hash POST Url_schedule ?f as_alice =
     (Confirm_page 3 (str ''A''),
      as_alice\<lparr>pickups := pickups as_alice @
        [\<lparr>p_id = 3, p_user_id = 1, p_name = str ''A'', p_email = str ''a@x.com'',
          p_address = [], p_item = str ''Laptop'', p_date = [],
          p_status = str ''Scheduled''\<rparr>]\<rparr>)"
    by code_simp
  have name: "?f (str ''name'') = Some (str '' A '')" by code_simp
  have email: "?f (str ''email'') = Some (str ''a@x.com'')" by code_simp
  have address: "?f (str ''address'') = None" by code_simp
  have item: "?f (str ''item'') = Some (str ''  Laptop'')" by code_simp
  have date: "?f (str ''date'') = None" by code_simp
  from schedule_post_creates_one_pickup [OF auth, of ascii_lower plain_hash ?f]
  have "\<exists>p. handle ascii_lower plain_hash POST Url_schedule ?f as_alice =
           (Confirm_page (p_id p) (p_name p), as_alice\<lparr>pickups := pickups as_alice @ [p]\<rparr>)
        \<and> p_id p \<notin> set (map p_id (pickups as_alice))
        \<and> p_user_id p = u_id alice
        \<and> is_trimmed (str '' A '') (p_name p)
        \<and> is_trimmed (str ''a@x.com'') (p_email p)
        \<and> is_trimmed [] (p_address p)
        \<and> is_trimmed (str ''  Laptop'') (p_item p)
        \<and> is_trimmed [] (p_date p)
        \<and> p_status p = str ''Scheduled''"
    unfolding name email address item date by simp
  with auth run show ?thesis by blast
qed

subsection \<open>The administrator's listing and status update\<close>

text \<open>
  Claim C6. A GET of /requests by an authenticated user who is not an administrator is
  answered by a redirect to the home page and leaves the users and pickups tables (the
  whole state) unchanged. For an administrator the page lists all pickups, each row once,
  ordered by identifier descending, and the state is unchanged as well.
\<close>

theorem admin_requests_gate_and_listing:
  assumes "current_user w = Some cu"
  shows "(\<not> u_is_admin cu \<longrightarrow> handle lower W GET Url_requests f w = (Redirect Url_index, w)) \<and>
         (u_is_admin cu \<longrightarrow>
            (\<exists>ps. handle lower W GET Url_requests f w = (Admin_page ps, w)
                 \<and> mset ps = mset (pickups w)
                 \<and> sorted_wrt (\<lambda>a b. p_id b \<le> p_id a) ps))"
  using assms
  by (simp add: handle_admin_requests admin_requests_def mset_order_by_id_desc
        sorted_order_by_id_desc)

theorem admin_requests_gate_and_listing_witness:
  "(current_user as_alice = Some alice \<and> \<not> u_is_admin alice \<and>
    handle ascii_lower plain_hash GET Url_requests (form_of []) as_alice
      = (Redirect Url_index, as_alice)) \<and>
   (current_user as_root = Some root \<and> u_is_admin root \<and>
    handle ascii_lower plain_hash GET Url_requests (form_of []) as_root
      = (Admin_page [phone, laptop], as_root) \<and>
    (\<exists>ps. handle ascii_lower plain_hash GET Url_requests (form_of []) as_root
             = (Admin_page ps, as_root)
         \<and> mset ps = mset (pickups as_root)
         \<and> sorted_wrt (\<lambda>a b. p_id b \<le> p_id a) ps))"
proof -
  have a: "current_user as_alice = Some alice" by code_simp
  have na: "\<not> u_is_admin alice" by code_simp
  have r: "current_user as_root = Some root" by code_simp
  have ra: "u_is_admin root" by code_simp
  have listing: "handle ascii_lower plain_hash GET Url_requests (form_of []) as_root
      = (Admin_page [phone, laptop], as_root)"
    by code_simp
  from admin_requests_gate_and_listing [OF a, of ascii_lower plain_hash "form_of []"] na
  have user: "handle ascii_lower plain_hash GET Url_requests (form_of []) as_alice
      = (Redirect Url_index, as_alice)"
    by blast
  from admin_requests_gate_and_listing [OF r, of ascii_lower plain_hash "form_of []"] ra
  have admin: "\<exists>ps. handle ascii_lower plain_hash GET Url_requests (form_of []) as_root
             = (Admin_page ps, as_root)
         \<and> mset ps = mset (pickups as_root)
         \<and> sorted_wrt (\<lambda>a b. p_id b \<le> p_id a) ps"
    by blast
  from a na user r ra listing admin show ?thesis by blast
qed

text \<open>
  Claim C4, as the code has it. For a status update by an administrator on an existing
  pickup, the status string is the submitted status field trimmed (the empty string when
  the field is missing). When it is non-empty the pickup's status afterwards is that
  trimmed string, whatever it is: nothing checks it against the six values the form
  offers. When it is empty the state is unchanged.
\<close>

theorem update_status_persists_trimmed_status:
  assumes "current_user w = Some cu" and "u_is_admin cu"
    and "get_or_404 w (int i) = Inr p"
  shows "\<exists>t. is_trimmed (case f (str ''status'') of None \<Rightarrow> [] | Some v \<Rightarrow> v) t \<and>
             (t \<noteq> [] \<longrightarrow>
                get_or_404 (snd (handle lower W POST (Url_status i) f w)) (int i) =
                  Inr (p\<lparr>p_status := t\<rparr>)) \<and>
             (t = [] \<longrightarrow> snd (handle lower W POST (Url_status i) f w) = w)"
proof -
  let ?t = "strip (form_get_or f (str ''status''))"
  from assms(3) have small: "\<not> 2 ^ 63 \<le> int i"
    and found: "find (\<lambda>q. p_id q = int i) (pickups w) = Some p"
    by (simp_all add: get_or_404_def split: if_splits option.splits)
  have "get_or_404 (snd (handle lower W POST (Url_status i) f w)) (int i) =
          Inr (p\<lparr>p_status := ?t\<rparr>)" if "?t \<noteq> []"
    using assms that small found
    by (simp add: handle_update_status update_status_def Let_def get_or_404_def
          find_set_status)
  moreover have "snd (handle lower W POST (Url_status i) f w) = w" if "?t = []"
    using assms that by (simp add: handle_update_status update_status_def Let_def)
  ultimately show ?thesis
    using is_trimmed_form_get_or [of f "str ''status''"] by (intro exI [of _ ?t]) simp
qed

theorem update_status_persists_trimmed_status_witness:
  "current_user as_root = Some root \<and> u_is_admin root \<and>
   get_or_404 as_root (int 1) = Inr laptop \<and>
   get_or_404 (snd (handle ascii_lower plain_hash POST (Url_status 1)
                      (form_of [(''status'', ''Shredded '')]) as_root)) (int 1) =
     Inr (laptop\<lparr>p_status := str ''Shredded''\<rparr>) \<and>
   snd (handle ascii_lower plain_hash POST (Url_status 1) (form_of [(''status'', ''  '')]) as_root)
     = as_root \<and>
   (\<exists>t. is_trimmed (str ''Shredded '') t \<and>
        (t \<noteq> [] \<and>
           get_or_404 (snd (handle ascii_lower plain_hash POST (Url_status 1)
                              (form_of [(''status'', ''Shredded '')]) as_root)) (int 1) =
             Inr (laptop\<lparr>p_status := t\<rparr>))) \<and>
   (\<exists>t. is_trimmed (str ''  '') t \<and>
        (t = [] \<and>
           snd (handle ascii_lower plain_hash POST (Url_status 1)
                  (form_of [(''status'', ''  '')]) as_root) = as_root))"
proof -
  let ?f = "form_of [(''status'', ''Shredded '')]"
  let ?g = "form_of [(''status'', ''  '')]"
  have r: "current_user as_root = Some root" by code_simp
  have ra: "u_is_admin root" by code_simp
  have g: "get_or_404 as_root (int 1) = Inr laptop" by code_simp
  have stored: "get_or_404 (snd (handle ascii_lower plain_hash POST (Url_status 1) ?f as_root))
      (int 1) = Inr (laptop\<lparr>p_status := str ''Shredded''\<rparr>)"
    by code_simp
  have kept: "snd (handle ascii_lower plain_hash POST (Url_status 1) ?g as_root) = as_root"
    by code_simp
  have fv: "?f (str ''status'') = Some (str ''Shredded '')" by code_simp
  have gv: "?g (str ''status'') = Some (str ''  '')" by code_simp
  have ne: "strip (str ''Shredded '') \<noteq> []" by code_simp
  have em: "strip (str ''  '') = []" by code_simp
  from update_status_persists_trimmed_status [OF r ra g, of ?f ascii_lower plain_hash]
  obtain t where t: "is_trimmed (str ''Shredded '') t"
    and t_set: "t \<noteq> [] \<longrightarrow>
       get_or_404 (snd (handle ascii_lower plain_hash POST (Url_status 1) ?f as_root)) (int 1) =
         Inr (laptop\<lparr>p_status := t\<rparr>)"
    unfolding fv by auto
  from t ne have "t \<noteq> []" by (simp add: is_trimmed_iff)
  with t t_set have changed: "\<exists>t. is_trimmed (str ''Shredded '') t \<and>
        (t \<noteq> [] \<and>
           get_or_404 (snd (handle ascii_lower plain_hash POST (Url_status 1) ?f as_root)) (int 1) =
             Inr (laptop\<lparr>p_status := t\<rparr>))"
    by blast
  from update_status_persists_trimmed_status [OF r ra g, of ?g ascii_lower plain_hash]
  obtain t' where t': "is_trimmed (str ''  '') t'"
    and t'_kept: "t' = [] \<longrightarrow>
       snd (handle ascii_lower plain_hash POST (Url_status 1) ?g as_root) = as_root"
    unfolding gv by auto
  from t' em have "t' = []" by (simp add: is_trimmed_iff)
  with t' t'_kept have unchanged: "\<exists>t. is_trimmed (str ''  '') t \<and>
        (t = [] \<and> snd (handle ascii_lower plain_hash POST (Url_status 1) ?g as_root) = as_root)"
    by blast
  from r ra g stored kept changed unchanged show ?thesis by blast
qed

text \<open>
  The claim as written says that the status afterwards equals exactly the submitted
  string. It does not when the string has whitespace around it: submitted with a space
  on each side, Recycled is stored without the spaces.
\<close>

theorem update_status_padded_status_counterexample:
  "current_user as_root = Some root \<and> u_is_admin root \<and>
   pickups as_root = [laptop, phone] \<and> p_id laptop = 1 \<and>
   form_of [(''status'', '' Recycled '')] (str ''status'') = Some (str '' Recycled '') \<and>
   strip (str '' Recycled '') \<noteq> [] \<and>
   map p_status
     (pickups (snd (handle ascii_lower plain_hash POST (Url_status 1)
                      (form_of [(''status'', '' Recycled '')]) as_root)))
     = [str ''Recycled'', str ''Assigned''] \<and>
   str ''Recycled'' \<noteq> str '' Recycled ''"
  by code_simp

text \<open>
  Claim C8, as the code has it. A status update by an administrator whose pickup
  identifier matches no row leaves the pickups table (the whole state) unchanged. The
  response is the not-found response of \<^verbatim>\<open>get_or_404\<close> when the identifier is below 2^63;
  an identifier of 2^63 or more does not fit the integer of the database, the lookup
  raises, and the response is an internal server error.
\<close>

theorem update_status_missing_pickup:
  assumes "current_user w = Some cu" and "u_is_admin cu"
    and "int i \<notin> p_id ` set (pickups w)"
  shows "handle lower W POST (Url_status i) f w =
           (if int i < 2 ^ 63 then Not_found else Internal_server_error, w)"
  using assms(1,2) get_or_404_missing [OF assms(3)]
  by (simp add: handle_update_status update_status_def)

theorem update_status_missing_pickup_witness:
  "current_user as_root = Some root \<and> u_is_admin root \<and>
   int 7 \<notin> p_id ` set (pickups as_root) \<and> int 7 < 2 ^ 63 \<and>
   handle ascii_lower plain_hash POST (Url_status 7) (form_of [(''status'', ''Recycled'')]) as_root
     = (Not_found, as_root)"
proof -
  have r: "current_user as_root = Some root" by code_simp
  have ra: "u_is_admin root" by code_simp
  have miss: "int 7 \<notin> p_id ` set (pickups as_root)"
    by (simp add: as_root_def laptop_def phone_def)
  have small: "int 7 < 2 ^ 63" by simp
  from update_status_missing_pickup [OF r ra miss, of ascii_lower plain_hash
         "form_of [(''status'', ''Recycled'')]"] small
  have "handle ascii_lower plain_hash POST (Url_status 7) (form_of [(''status'', ''Recycled'')])
          as_root = (Not_found, as_root)"
    by simp
  with r ra miss small show ?thesis by blast
qed

text \<open>
  The claim as written promises the not-found response for every identifier that matches
  no row. For the identifier 2^63 the response is the internal server error.
\<close>

theorem update_status_oversized_id_counterexample:
  "current_user as_root = Some root \<and> u_is_admin root \<and>
   int 9223372036854775808 \<notin> p_id ` set (pickups as_root) \<and>
   handle ascii_lower plain_hash POST (Url_status 9223372036854775808)
     (form_of [(''status'', ''Recycled'')]) as_root
     = (Internal_server_error, as_root) \<and>
   Internal_server_error \<noteq> Not_found"
  by (simp add: handle_def update_status_def get_or_404_def current_user_def load_user_def
        as_root_def alice_def root_def laptop_def phone_def)

text \<open>
  Claim C9. A status update by an administrator on an existing pickup leaves the users
  table unchanged and keeps the pickups table row for row: in every row the identifier,
  owner, name, email, address, item and date are as before, and a row whose identifier
  is not the target is unchanged altogether. Only the status of the targeted pickup may
  differ.
\<close>

theorem update_status_frame:
  assumes "current_user w = Some cu" and "u_is_admin cu"
    and "int i \<in> p_id ` set (pickups w)"
  shows "users (snd (handle lower W POST (Url_status i) f w)) = users w \<and>
         list_all2 (\<lambda>p p'. p_id p' = p_id p \<and> p_user_id p' = p_user_id p \<and>
                      p_name p' = p_name p \<and> p_email p' = p_email p \<and>
                      p_address p' = p_address p \<and> p_item p' = p_item p \<and>
                      p_date p' = p_date p \<and> (p_id p \<noteq> int i \<longrightarrow> p' = p))
           (pickups w) (pickups (snd (handle lower W POST (Url_status i) f w)))"
proof -
  let ?R = "\<lambda>p p'. p_id p' = p_id p \<and> p_user_id p' = p_user_id p \<and>
                      p_name p' = p_name p \<and> p_email p' = p_email p \<and>
                      p_address p' = p_address p \<and> p_item p' = p_item p \<and>
                      p_date p' = p_date p \<and> (p_id p \<noteq> int i \<longrightarrow> p' = p)"
  have same: "list_all2 ?R ps ps" for ps :: "pickup list"
    by (simp add: list_all2_same)
  have upd: "list_all2 ?R ps (set_status (int i) s ps)" for s ps
    by (induction ps) (simp_all add: set_status_def)
  show ?thesis
    using assms(1,2) same upd
    by (simp add: handle_update_status update_status_def Let_def split: sum.splits)
qed

theorem update_status_frame_witness:
  "current_user as_root = Some root \<and> u_is_admin root \<and>
   int 1 \<in> p_id ` set (pickups as_root) \<and>
   snd (handle ascii_lower plain_hash POST (Url_status 1) (form_of [(''status'', ''Picked'')])
          as_root)
     = as_root\<lparr>pickups := [laptop\<lparr>p_status := str ''Picked''\<rparr>, phone]\<rparr> \<and>
   users (snd (handle ascii_lower plain_hash POST (Url_status 1)
                 (form_of [(''status'', ''Picked'')]) as_root))
     = users as_root \<and>
   list_all2 (\<lambda>p p'. p_id p' = p_id p \<and> p_user_id p' = p_user_id p \<and>
                p_name p' = p_name p \<and> p_email p' = p_email p \<and>
                p_address p' = p_address p \<and> p_item p' = p_item p \<and>
                p_date p' = p_date p \<and> (p_id p \<noteq> int 1 \<longrightarrow> p' = p))
     (pickups as_root)
     (pickups (snd (handle ascii_lower plain_hash POST (Url_status 1)
                      (form_of [(''status'', ''Picked'')]) as_root)))"
proof -
  have r: "current_user as_root = Some root" by code_simp
  have ra: "u_is_admin root" by code_simp
  have hit: "int 1 \<in> p_id ` set (pickups as_root)"
    by (simp add: as_root_def laptop_def phone_def)
  have run: "snd (handle ascii_lower plain_hash POST (Url_status 1)
                    (form_of [(''status'', ''Picked'')]) as_root)
     = as_root\<lparr>pickups := [laptop\<lparr>p_status := str ''Picked''\<rparr>, phone]\<rparr>"
    by code_simp
  from r ra hit run update_status_frame [OF r ra hit]
  show ?thesis by blast
qed

subsection \<open>Registration and login\<close>

text \<open>
  Claim C2, as the code has it. Take two registration submissions whose emails are equal
  after trimming and lowercasing, the second handled after the first with any requests
  in between. Together they create at most one User row. The second submission
  re-renders the registration form and leaves the whole state (user table and session)
  unchanged, except when the first submission was rejected only because its password
  was empty, the email being non-empty and not yet registered: then the first created
  no user and the second submission may create the one user.
\<close>

theorem register_same_email_twice:
  assumes "lower (strip (form_get_or fa (str ''email''))) =
           lower (strip (form_get_or fb (str ''email'')))"
  shows "(\<exists>ua ub.
            users (snd (handle lower Wa POST Url_register fa w)) = users w @ ua \<and>
            users (snd (handle lower Wb POST Url_register fb
                          (handle_all lower cs (snd (handle lower Wa POST Url_register fa w))))) =
              users (handle_all lower cs (snd (handle lower Wa POST Url_register fa w))) @ ub \<and>
            length ua + length ub \<le> 1) \<and>
         (form_get_or fa (str ''password'') \<noteq> []
            \<or> lower (strip (form_get_or fa (str ''email''))) = []
            \<or> filter_by_email_first w (lower (strip (form_get_or fa (str ''email'')))) \<noteq> None \<longrightarrow>
            handle lower Wb POST Url_register fb
              (handle_all lower cs (snd (handle lower Wa POST Url_register fa w))) =
              (Auth_page ''Register'' ''register'',
               handle_all lower cs (snd (handle lower Wa POST Url_register fa w))))"
proof -
  let ?e = "lower (strip (form_get_or fb (str ''email'')))"
  let ?w1 = "snd (handle lower Wa POST Url_register fa w)"
  let ?w2 = "handle_all lower cs ?w1"
  let ?r = "handle lower Wb POST Url_register fb ?w2"
  show ?thesis
  proof (cases "fst (handle lower Wa POST Url_register fa w) = Redirect Url_index")
    case True
    then obtain u where w1: "?w1 = w\<lparr>users := users w @ [u], session_user_id := Some (u_id u)\<rparr>"
      and u: "u_email u = ?e"
      using assms register_success [of lower Wa fa w] by (auto simp: handle_register)
    have "filter_by_email_first ?w1 ?e \<noteq> None"
      unfolding w1 u [symmetric] by (rule registered_email_found)
    then have "filter_by_email_first ?w2 ?e \<noteq> None"
      by (rule handle_all_email_stays)
    then have r: "?r = (Auth_page ''Register'' ''register'', ?w2)"
      by (simp add: handle_register register_outcome)
    have "users ?w1 = users w @ [u]" by (simp add: w1)
    moreover have "users (snd ?r) = users ?w2 @ []" by (simp add: r)
    ultimately have "\<exists>ua ub. users ?w1 = users w @ ua \<and> users (snd ?r) = users ?w2 @ ub
                       \<and> length ua + length ub \<le> 1"
      by (intro exI [of _ "[u]"] exI [of _ "[]"]) simp
    with r show ?thesis by simp
  next
    case False
    then have first: "handle lower Wa POST Url_register fa w = (Auth_page ''Register'' ''register'', w)"
      using register_failure [of lower Wa fa w] by (simp add: handle_register)
    then have w1: "users ?w1 = users w @ []" by simp
    have created: "\<exists>ua ub. users ?w1 = users w @ ua \<and> users (snd ?r) = users ?w2 @ ub
                     \<and> length ua + length ub \<le> 1"
    proof (cases "fst ?r = Redirect Url_index")
      case True
      then obtain u where "snd ?r = ?w2\<lparr>users := users ?w2 @ [u], session_user_id := Some (u_id u)\<rparr>"
        using register_success [of lower Wb fb ?w2] by (auto simp: handle_register)
      then have "users (snd ?r) = users ?w2 @ [u]" by simp
      with w1 show ?thesis by (intro exI [of _ "[]"] exI [of _ "[u]"]) simp
    next
      case False
      then have "?r = (Auth_page ''Register'' ''register'', ?w2)"
        using register_failure [of lower Wb fb ?w2] by (simp add: handle_register)
      then have "users (snd ?r) = users ?w2 @ []" by simp
      with w1 show ?thesis by (intro exI [of _ "[]"] exI [of _ "[]"]) simp
    qed
    have "?r = (Auth_page ''Register'' ''register'', ?w2)"
      if c: "form_get_or fa (str ''password'') \<noteq> []
            \<or> lower (strip (form_get_or fa (str ''email''))) = []
            \<or> filter_by_email_first w (lower (strip (form_get_or fa (str ''email'')))) \<noteq> None"
    proof -
      from False c assms have "?e = [] \<or> filter_by_email_first w ?e \<noteq> None"
        by (auto simp: handle_register register_outcome split: if_splits)
      then show ?thesis
      proof
        assume "?e = []"
        then show ?thesis by (simp add: handle_register register_outcome)
      next
        assume "filter_by_email_first w ?e \<noteq> None"
        with first have "filter_by_email_first ?w1 ?e \<noteq> None" by simp
        then have "filter_by_email_first ?w2 ?e \<noteq> None"
          by (rule handle_all_email_stays)
        then show ?thesis by (simp add: handle_register register_outcome)
      qed
    qed
    with created show ?thesis by blast
  qed
qed

theorem register_same_email_twice_witness:
  "ascii_lower (strip (form_get_or (form_of [(''email'', ''a@x.com''), (''password'', ''pw1'')])
                         (str ''email'')))
     = ascii_lower (strip (form_get_or (form_of [(''email'', '' A@X.com ''), (''password'', ''pw2'')])
                             (str ''email''))) \<and>
   form_get_or (form_of [(''email'', ''a@x.com''), (''password'', ''pw1'')]) (str ''password'') \<noteq> [] \<and>
   handle_all ascii_lower [(plain_hash, GET, Url_logout, form_of [])]
     (snd (handle ascii_lower plain_hash POST Url_register
             (form_of [(''email'', ''a@x.com''), (''password'', ''pw1'')]) db_empty))
     = \<lparr>users = [alice], pickups = [], session_user_id = None\<rparr> \<and>
   handle ascii_lower plain_hash POST Url_register
     (form_of [(''email'', '' A@X.com ''), (''password'', ''pw2'')])
     (handle_all ascii_lower [(plain_hash, GET, Url_logout, form_of [])]
        (snd (handle ascii_lower plain_hash POST Url_register
                (form_of [(''email'', ''a@x.com''), (''password'', ''pw1'')]) db_empty))) =
     (Auth_page ''Register'' ''register'',
      handle_all ascii_lower [(plain_hash, GET, Url_logout, form_of [])]
        (snd (handle ascii_lower plain_hash POST Url_register
                (form_of [(''email'', ''a@x.com''), (''password'', ''pw1'')]) db_empty)))"
proof -
  let ?fa = "form_of [(''email'', ''a@x.com''), (''password'', ''pw1'')]"
  let ?fb = "form_of [(''email'', '' A@X.com ''), (''password'', ''pw2'')]"
  have same: "ascii_lower (strip (form_get_or ?fa (str ''email'')))
     = ascii_lower (strip (form_get_or ?fb (str ''email'')))"
    by code_simp
  have pw: "form_get_or ?fa (str ''password'') \<noteq> []"
    by code_simp
  have between: "handle_all ascii_lower [(plain_hash, GET, Url_logout, form_of [])]
     (snd (handle ascii_lower plain_hash POST Url_register ?fa db_empty))
     = \<lparr>users = [alice], pickups = [], session_user_id = None\<rparr>"
    by code_simp
  from register_same_email_twice
         [OF same, of plain_hash db_empty plain_hash "[(plain_hash, GET, Url_logout, form_of [])]"]
       pw
  have "handle ascii_lower plain_hash POST Url_register ?fb
     (handle_all ascii_lower [(plain_hash, GET, Url_logout, form_of [])]
        (snd (handle ascii_lower plain_hash POST Url_register ?fa db_empty))) =
     (Auth_page ''Register'' ''register'',
      handle_all ascii_lower [(plain_hash, GET, Url_logout, form_of [])]
        (snd (handle ascii_lower plain_hash POST Url_register ?fa db_empty)))"
    by blast
  with same pw between show ?thesis by blast
qed

text \<open>
  The claim as written has the second submission always re-render the form and create no
  user. After a first submission with an empty password, which is rejected, the second
  submission with the same email is the one that creates the user, starts the session
  and is answered by the redirect to the home page.
\<close>

theorem register_after_rejected_submission_counterexample:
  "ascii_lower (strip (form_get_or (form_of [(''email'', ''a@x.com''), (''password'', [])])
                         (str ''email'')))
     = ascii_lower (strip (form_get_or (form_of [(''email'', '' A@X.com ''), (''password'', ''pw1'')])
                             (str ''email''))) \<and>
   handle ascii_lower plain_hash POST Url_register
     (form_of [(''email'', ''a@x.com''), (''password'', [])]) db_empty
     = (Auth_page ''Register'' ''register'', db_empty) \<and>
   fst (handle ascii_lower plain_hash POST Url_register
          (form_of [(''email'', '' A@X.com ''), (''password'', ''pw1'')])
          (snd (handle ascii_lower plain_hash POST Url_register
                  (form_of [(''email'', ''a@x.com''), (''password'', [])]) db_empty)))
     = Redirect Url_index \<and>
   snd (handle ascii_lower plain_hash POST Url_register
          (form_of [(''email'', '' A@X.com ''), (''password'', ''pw1'')])
          (snd (handle ascii_lower plain_hash POST Url_register
                  (form_of [(''email'', ''a@x.com''), (''password'', [])]) db_empty)))
     = \<lparr>users = [alice], pickups = [], session_user_id = Some 1\<rparr>"
  by code_simp

text \<open>
  Claim C3. A login submission whose password does not verify against the stored hash of
  the user found under the trimmed, lowercased email, or whose email finds no user,
  re-renders the login form and leaves the state, the session included, as it was. A
  request to /login changes the state only when it is a POST whose password verifies,
  and the only change is that the session then holds that user's identifier.
\<close>

theorem login_only_when_password_verifies:
  "((\<forall>u. filter_by_email_first w (lower (strip (form_get_or f (str ''email'')))) = Some u \<longrightarrow>
         \<not> check_password_hash W (u_password_hash u) (form_get_or f (str ''password''))) \<longrightarrow>
      handle lower W POST Url_login f w = (Auth_page ''Login'' ''login'', w)) \<and>
   (snd (handle lower W m Url_login f w) \<noteq> w \<longrightarrow>
      m = POST \<and>
      (\<exists>u. filter_by_email_first w (lower (strip (form_get_or f (str ''email'')))) = Some u
          \<and> check_password_hash W (u_password_hash u) (form_get_or f (str ''password''))
          \<and> snd (handle lower W m Url_login f w) = w\<lparr>session_user_id := Some (u_id u)\<rparr>))"
  by (cases m) (auto simp: handle_login login_def Let_def split: option.splits)

theorem login_only_when_password_verifies_witness:
  "(filter_by_email_first as_anonymous
       (ascii_lower (strip (form_get_or (form_of [(''email'', '' A@x.com''), (''password'', ''bad'')])
                              (str ''email''))))
       = Some alice \<and>
    \<not> check_password_hash plain_hash (u_password_hash alice)
       (form_get_or (form_of [(''email'', '' A@x.com''), (''password'', ''bad'')]) (str ''password'')) \<and>
    handle ascii_lower plain_hash POST Url_login
      (form_of [(''email'', '' A@x.com''), (''password'', ''bad'')]) as_anonymous
      = (Auth_page ''Login'' ''login'', as_anonymous)) \<and>
   (snd (handle ascii_lower plain_hash POST Url_login
           (form_of [(''email'', '' A@x.com''), (''password'', ''pw1'')]) as_anonymous)
      = as_anonymous\<lparr>session_user_id := Some 1\<rparr> \<and>
    snd (handle ascii_lower plain_hash POST Url_login
           (form_of [(''email'', '' A@x.com''), (''password'', ''pw1'')]) as_anonymous)
      \<noteq> as_anonymous \<and>
    (\<exists>u. filter_by_email_first as_anonymous
            (ascii_lower (strip (form_get_or (form_of [(''email'', '' A@x.com''), (''password'', ''pw1'')])
                                   (str ''email''))))
            = Some u
        \<and> check_password_hash plain_hash (u_password_hash u)
            (form_get_or (form_of [(''email'', '' A@x.com''), (''password'', ''pw1'')]) (str ''password''))
        \<and> snd (handle ascii_lower plain_hash POST Url_login
                  (form_of [(''email'', '' A@x.com''), (''password'', ''pw1'')]) as_anonymous)
            = as_anonymous\<lparr>session_user_id := Some (u_id u)\<rparr>))"
proof -
  let ?bad = "form_of [(''email'', '' A@x.com''), (''password'', ''bad'')]"
  let ?good = "form_of [(''email'', '' A@x.com''), (''password'', ''pw1'')]"
  have found: "filter_by_email_first as_anonymous
       (ascii_lower (strip (form_get_or ?bad (str ''email'')))) = Some alice"
    by code_simp
  have wrong: "\<not> check_password_hash plain_hash (u_password_hash alice)
       (form_get_or ?bad (str ''password''))"
    by code_simp
  have bad: "\<forall>u. filter_by_email_first as_anonymous
            (ascii_lower (strip (form_get_or ?bad (str ''email'')))) = Some u \<longrightarrow>
          \<not> check_password_hash plain_hash (u_password_hash u)
              (form_get_or ?bad (str ''password''))"
    using found wrong by simp
  have logged_in: "snd (handle ascii_lower plain_hash POST Url_login ?good as_anonymous)
       = as_anonymous\<lparr>session_user_id := Some 1\<rparr>"
    by code_simp
  have changed: "snd (handle ascii_lower plain_hash POST Url_login ?good as_anonymous)
       \<noteq> as_anonymous"
    by code_simp
  from login_only_when_password_verifies [of as_anonymous ascii_lower ?bad plain_hash POST] bad
  have rejected: "handle ascii_lower plain_hash POST Url_login ?bad as_anonymous
       = (Auth_page ''Login'' ''login'', as_anonymous)"
    by blast
  from login_only_when_password_verifies [of as_anonymous ascii_lower ?good plain_hash POST]
       changed
  have verified: "\<exists>u. filter_by_email_first as_anonymous
            (ascii_lower (strip (form_get_or ?good (str ''email'')))) = Some u
        \<and> check_password_hash plain_hash (u_password_hash u)
            (form_get_or ?good (str ''password''))
        \<and> snd (handle ascii_lower plain_hash POST Url_login ?good as_anonymous)
            = as_anonymous\<lparr>session_user_id := Some (u_id u)\<rparr>"
    by blast
  from found wrong rejected logged_in changed verified show ?thesis by blast
qed

text \<open>
  Claim C10, as the code has it. A successful registration appends one user and logs the
  session in as that user; the user's administrator flag is set exactly when the
  submitted form has an is_admin field with a non-empty value. The session of the
  request plays no part: a visitor who is not logged in and submits the checked box
  obtains an administrator account.
\<close>

theorem register_admin_flag_from_form:
  assumes "fst (handle lower W POST Url_register f w) = Redirect Url_index"
  shows "\<exists>u. snd (handle lower W POST Url_register f w) =
               w\<lparr>users := users w @ [u], session_user_id := Some (u_id u)\<rparr>
           \<and> u_is_admin u = (\<exists>v. f (str ''is_admin'') = Some v \<and> v \<noteq> [])"
proof -
  obtain u where "snd (handle lower W POST Url_register f w) =
                    w\<lparr>users := users w @ [u], session_user_id := Some (u_id u)\<rparr>"
    and "u_is_admin u = form_get_bool f (str ''is_admin'')"
    using assms register_success [of lower W f w] by (auto simp: handle_register)
  moreover have "form_get_bool f (str ''is_admin'') =
                   (\<exists>v. f (str ''is_admin'') = Some v \<and> v \<noteq> [])"
    by (simp add: form_get_bool_def split: option.splits)
  ultimately show ?thesis by (intro exI [of _ u]) simp
qed

theorem register_admin_flag_from_form_witness:
  "current_user db_empty = None \<and>
   fst (handle ascii_lower plain_hash POST Url_register
          (form_of [(''email'', ''eve@x.com''), (''password'', ''pw''), (''is_admin'', ''on'')])
          db_empty)
     = Redirect Url_index \<and>
   map u_is_admin
     (users (snd (handle ascii_lower plain_hash POST Url_register
                    (form_of [(''email'', ''eve@x.com''), (''password'', ''pw''), (''is_admin'', ''on'')])
                    db_empty)))
     = [True] \<and>
   (\<exists>u. snd (handle ascii_lower plain_hash POST Url_register
               (form_of [(''email'', ''eve@x.com''), (''password'', ''pw''), (''is_admin'', ''on'')])
               db_empty)
          = db_empty\<lparr>users := users db_empty @ [u], session_user_id := Some (u_id u)\<rparr>
       \<and> u_is_admin u =
           (\<exists>v. form_of [(''email'', ''eve@x.com''), (''password'', ''pw''), (''is_admin'', ''on'')]
                  (str ''is_admin'') = Some v \<and> v \<noteq> [])) \<and>
   form_of [(''email'', ''eve@x.com''), (''password'', ''pw''), (''is_admin'', ''on'')]
     (str ''is_admin'') = Some (str ''on'')"
proof -
  let ?f = "form_of [(''email'', ''eve@x.com''), (''password'', ''pw''), (''is_admin'', ''on'')]"
  have anon: "current_user db_empty = None" by code_simp
  have ok: "fst (handle ascii_lower plain_hash POST Url_register ?f db_empty) = Redirect Url_index"
    by code_simp
  have flag: "map u_is_admin
     (users (snd (handle ascii_lower plain_hash POST Url_register ?f db_empty))) = [True]"
    by code_simp
  have box: "?f (str ''is_admin'') = Some (str ''on'')" by code_simp
  from anon ok flag register_admin_flag_from_form [OF ok] box show ?thesis by blast
qed

text \<open>
  The claim as written ties the flag to the presence of the is_admin field. A form in
  which the field is present with an empty value registers a user whose flag is not set.
\<close>

theorem register_empty_is_admin_field_counterexample:
  "form_of [(''email'', ''a@x.com''), (''password'', ''pw1''), (''is_admin'', [])] (str ''is_admin'')
     = Some [] \<and>
   fst (handle ascii_lower plain_hash POST Url_register
          (form_of [(''email'', ''a@x.com''), (''password'', ''pw1''), (''is_admin'', [])]) db_empty)
     = Redirect Url_index \<and>
   map u_is_admin
     (users (snd (handle ascii_lower plain_hash POST Url_register
                    (form_of [(''email'', ''a@x.com''), (''password'', ''pw1''), (''is_admin'', [])])
                    db_empty)))
     = [False]"
  by code_simp

subsection \<open>A user's own pickups\<close>

text \<open>
  Claim C7. For an authenticated user the /my-pickups page lists exactly the pickups
  whose owner is that user, each once, ordered by identifier descending, and the state is
  unchanged. Hence no pickup owned by another user appears in the listing.
\<close>

theorem my_pickups_lists_own_pickups:
  assumes "current_user w = Some cu"
  shows "\<exists>ps. handle lower W GET Url_my_pickups f w = (My_pickups_page ps, w)
            \<and> mset ps = mset (filter (\<lambda>p. p_user_id p = u_id cu) (pickups w))
            \<and> sorted_wrt (\<lambda>a b. p_id b \<le> p_id a) ps
            \<and> (\<forall>p \<in> set (pickups w). p_user_id p \<noteq> u_id cu \<longrightarrow> p \<notin> set ps)"
proof -
  let ?ps = "order_by_id_desc (filter (\<lambda>p. p_user_id p = u_id cu) (pickups w))"
  have resp: "handle lower W GET Url_my_pickups f w = (My_pickups_page ?ps, w)"
    using assms by (simp add: handle_my_pickups login_required_def my_pickups_def)
  have ms: "mset ?ps = mset (filter (\<lambda>p. p_user_id p = u_id cu) (pickups w))"
    by (rule mset_order_by_id_desc)
  have "set ?ps = set (filter (\<lambda>p. p_user_id p = u_id cu) (pickups w))"
    using ms by (rule mset_eq_setD)
  then have other: "\<forall>p \<in> set (pickups w). p_user_id p \<noteq> u_id cu \<longrightarrow> p \<notin> set ?ps"
    by simp
  from resp ms sorted_order_by_id_desc other show ?thesis by blast
qed

theorem my_pickups_lists_own_pickups_witness:
  "current_user as_alice = Some alice \<and>
   handle ascii_lower plain_hash GET Url_my_pickups (form_of []) as_alice
     = (My_pickups_page [laptop], as_alice) \<and>
   (\<exists>ps. handle ascii_lower plain_hash GET Url_my_pickups (form_of []) as_alice
            = (My_pickups_page ps, as_alice)
        \<and> mset ps = mset (filter (\<lambda>p. p_user_id p = u_id alice) (pickups as_alice))
        \<and> sorted_wrt (\<lambda>a b. p_id b \<le> p_id a) ps
        \<and> (\<forall>p \<in> set (pickups as_alice). p_user_id p \<noteq> u_id alice \<longrightarrow> p \<notin> set ps))"
proof -
  have auth: "current_user as_alice = Some alice" by code_simp
  have run: "handle ascii_lower plain_hash GET Url_my_pickups (form_of []) as_alice
     = (My_pickups_page [laptop], as_alice)"
    by code_simp
  from auth run my_pickups_lists_own_pickups [OF auth]
  show ?thesis by blast
qed

end
